theory Spec2Isabelle
  imports Main
begin

section \<open>Data model\<close>

text \<open>
  The cells of a data frame are Python scalars. The signatures of \<open>create_dict_pl\<close> and
  \<open>create_dict_pd\<close> give the nested dictionary the type
  \<^verbatim>\<open>dict[str, dict[int|str, int|str]]\<close>, so a cell is an integer or a string. Python
  compares and hashes them by value: an integer never equals a string. Missing values
  are not part of the model.
\<close>

datatype pyval = PInt int | PStr string

text \<open>
  A Python \<open>dict\<close> keeps its keys in insertion order and holds every key once. It is an
  association list; \<open>d[k] = v\<close> overwrites the value of a key that is present, where that
  key stands, and appends a new key at the end.
\<close>

type_synonym ('k, 'v) pydict = "('k \<times> 'v) list"

fun dict_setitem :: "('k, 'v) pydict \<Rightarrow> 'k \<Rightarrow> 'v \<Rightarrow> ('k, 'v) pydict" where
  "dict_setitem [] k v = [(k, v)]"
| "dict_setitem ((k', v') # d) k v =
     (if k' = k then (k', v) # d else (k', v') # dict_setitem d k v)"

definition dict_get :: "('k, 'v) pydict \<Rightarrow> 'k \<Rightarrow> 'v option" where
  "dict_get d k = map_of d k"

definition dict_keys :: "('k, 'v) pydict \<Rightarrow> 'k list" where
  "dict_keys d = map fst d"

text \<open>\<open>dict(pairs)\<close>: the pairs are stored one after the other, from the empty dictionary.\<close>

definition dict_of :: "('k \<times> 'v) list \<Rightarrow> ('k, 'v) pydict" where
  "dict_of ps = foldl (\<lambda>d (k, v). dict_setitem d k v) [] ps"

text \<open>
  The inner dictionary maps old values to new values, the nested dictionary maps the
  values of the column-name field to inner dictionaries.
\<close>

type_synonym column_codebook = "(pyval, pyval) pydict"
type_synonym codebook = "(pyval, column_codebook) pydict"

text \<open>
  A data frame is the list of its named columns, in column order. In a data frame the
  column names are distinct and all columns have the same number of cells.
\<close>

type_synonym frame = "(string \<times> pyval list) list"

definition columns :: "frame \<Rightarrow> string list" where
  "columns df = map fst df"

definition get_column :: "frame \<Rightarrow> string \<Rightarrow> pyval list option" where
  "get_column df name = map_of df name"

definition wf_frame :: "frame \<Rightarrow> bool" where
  "wf_frame df \<longleftrightarrow>
     distinct (columns df) \<and> (\<forall>c \<in> set df. \<forall>c' \<in> set df. length (snd c) = length (snd c'))"

text \<open>
  The exceptions the two libraries and Python raise in the modelled code: polars cannot
  resolve a column name (\<open>ColumnNotFoundError\<close>), finds an output name twice
  (\<open>DuplicateError\<close>) or cannot cast a value to the dtype of a column
  (\<open>InvalidOperationError\<close>), \<open>pl.col\<close> is given something that is not a string
  (\<open>TypeError\<close>), pandas is asked for a column label that the frame does not have
  (\<open>KeyError\<close>).
\<close>

datatype error =
    ColumnNotFoundError string
  | DuplicateError string
  | InvalidOperationError
  | KeyError string
  | TypeError

section \<open>Compiling the codebook table (\<open>setup/create_codebook.py\<close>)\<close>

text \<open>
  Both \<open>group_by(col_name, maintain_order=True)\<close> of polars and
  \<open>groupby(col_name, sort=False)\<close> of pandas produce one group per distinct value of the
  key column, the groups in the order in which their keys first appear, and the rows of
  a group in the order of the frame.
\<close>

fun group_keys :: "'a list \<Rightarrow> 'a list" where
  "group_keys [] = []"
| "group_keys (k # ks) = k # filter (\<lambda>x. x \<noteq> k) (group_keys ks)"

definition take_group :: "'a \<Rightarrow> 'a list \<Rightarrow> 'b list \<Rightarrow> 'b list" where
  "take_group k ks vs = map snd (filter (\<lambda>(k', v). k' = k) (zip ks vs))"

subsection \<open>polars\<close>

text \<open>
  \<^verbatim>\<open>df.group_by(col_name, maintain_order=True).agg(pl.col(old_val_col), pl.col(new_val_col))\<close>
  is a frame with one row per group: the key, the list of the group's old values and the
  list of its new values. \<open>iter_rows(named=True)\<close> yields these rows. The three names
  have to be columns of \<open>df\<close>, and the output columns need three different names.
\<close>

record agg_row =
  row_key :: pyval
  row_old :: "pyval list"
  row_new :: "pyval list"

definition group_by_agg :: "frame \<Rightarrow> string \<Rightarrow> string \<Rightarrow> string \<Rightarrow> error + agg_row list" where
  "group_by_agg df col_name old_val_col new_val_col =
     (case get_column df col_name of
        None \<Rightarrow> Inl (ColumnNotFoundError col_name)
      | Some ks \<Rightarrow>
     (case get_column df old_val_col of
        None \<Rightarrow> Inl (ColumnNotFoundError old_val_col)
      | Some os \<Rightarrow>
     (case get_column df new_val_col of
        None \<Rightarrow> Inl (ColumnNotFoundError new_val_col)
      | Some ns \<Rightarrow>
     if old_val_col = col_name then Inl (DuplicateError old_val_col)
     else if new_val_col = col_name \<or> new_val_col = old_val_col
       then Inl (DuplicateError new_val_col)
     else Inr (map (\<lambda>k. \<lparr>row_key = k, row_old = take_group k ks os,
                          row_new = take_group k ks ns\<rparr>) (group_keys ks)))))"

text \<open>
  The dictionary comprehension
  \<^verbatim>\<open>{row[col_name]: dict(zip(row[old_val_col], row[new_val_col])) for row in ...}\<close>
  stores one entry per row, in row order.
\<close>

definition nested_of_rows :: "agg_row list \<Rightarrow> codebook" where
  "nested_of_rows rows =
     foldl (\<lambda>d row. dict_setitem d (row_key row) (dict_of (zip (row_old row) (row_new row))))
       [] rows"

definition create_dict_pl :: "frame \<Rightarrow> string \<Rightarrow> string \<Rightarrow> string \<Rightarrow> error + codebook" where
  "create_dict_pl df col_name old_val_col new_val_col =
     (case group_by_agg df col_name old_val_col new_val_col of
        Inl e \<Rightarrow> Inl e
      | Inr rows \<Rightarrow> Inr (nested_of_rows rows))"

subsection \<open>pandas\<close>

text \<open>
  \<^verbatim>\<open>df.groupby(col_name, sort=False)\<close> raises \<open>KeyError\<close> when \<open>col_name\<close> is not a column;
  iterating it yields, per group, the key and the sub-frame of the group's rows, with all
  the columns of \<open>df\<close>.
\<close>

definition groupby :: "frame \<Rightarrow> string \<Rightarrow> error + (pyval \<times> frame) list" where
  "groupby df col_name =
     (case get_column df col_name of
        None \<Rightarrow> Inl (KeyError col_name)
      | Some ks \<Rightarrow>
          Inr (map (\<lambda>k. (k, map (\<lambda>(name, vs). (name, take_group k ks vs)) df))
                 (group_keys ks)))"

text \<open>
  The loop
  \<^verbatim>\<open>for var, col in df.groupby(col_name, sort=False):
     nested_dict[var] = dict(zip(col[old_val_col], col[new_val_col]))\<close>
  with \<open>nested_dict\<close> as the state. The two columns are looked up in the loop body, the
  old values first; a group whose frame lacks one of them raises \<open>KeyError\<close>.
\<close>

fun create_dict_pd_loop ::
  "(pyval \<times> frame) list \<Rightarrow> string \<Rightarrow> string \<Rightarrow> codebook \<Rightarrow> error + codebook" where
  "create_dict_pd_loop [] old_val_col new_val_col nested_dict = Inr nested_dict"
| "create_dict_pd_loop ((var, col) # groups) old_val_col new_val_col nested_dict =
     (case get_column col old_val_col of
        None \<Rightarrow> Inl (KeyError old_val_col)
      | Some os \<Rightarrow>
     (case get_column col new_val_col of
        None \<Rightarrow> Inl (KeyError new_val_col)
      | Some ns \<Rightarrow>
          create_dict_pd_loop groups old_val_col new_val_col
            (dict_setitem nested_dict var (dict_of (zip os ns)))))"

definition create_dict_pd :: "frame \<Rightarrow> string \<Rightarrow> string \<Rightarrow> string \<Rightarrow> error + codebook" where
  "create_dict_pd df col_name old_val_col new_val_col =
     (case groupby df col_name of
        Inl e \<Rightarrow> Inl e
      | Inr groups \<Rightarrow> create_dict_pd_loop groups old_val_col new_val_col [])"

section \<open>Recoding a dataset (\<open>main.py\<close>)\<close>

subsection \<open>pandas\<close>

text \<open>
  \<^verbatim>\<open>data_pd.replace(to_replace=nested_dict_pd)\<close>: with a nested dictionary, pandas looks
  in the column named by an outer key for the inner keys. It works through the outer keys
  that are column labels of the frame and skips the others; it returns a new frame. A
  cell that equals a key of the inner dictionary, by Python equality, is replaced by the
  value stored under that key, and every other cell is kept. All cells of a column are
  compared with the keys before any is replaced, so a replaced cell is not looked up again.

  pandas holds a column of integers as 64-bit integers and fails when \<open>replace\<close> has to
  store an integer outside that range in such a column. \<open>recode_pd\<close> is \<open>replace\<close> for
  the codebooks whose integers are within the range (\<open>int64_codebook\<close> below).
\<close>

definition replace_value :: "column_codebook \<Rightarrow> pyval \<Rightarrow> pyval" where
  "replace_value d x = (case dict_get d x of None \<Rightarrow> x | Some y \<Rightarrow> y)"

definition recode_pd :: "frame \<Rightarrow> codebook \<Rightarrow> frame" where
  "recode_pd data_pd nested_dict_pd =
     map (\<lambda>(name, cells).
            (name, case dict_get nested_dict_pd (PStr name) of
                     None \<Rightarrow> cells
                   | Some d \<Rightarrow> map (replace_value d) cells))
       data_pd"

subsection \<open>polars\<close>

text \<open>The polars expressions that \<open>main.py\<close> builds.\<close>

datatype expr = Col string | Replace expr column_codebook | Alias expr string

text \<open>
  \<open>Expr.replace\<close> is code of polars. It keeps the dtype of the column it works on: it
  casts the keys and the new values of the dictionary to that dtype, fails with
  \<open>InvalidOperationError\<close> when a cast fails, and compares the cells with the cast keys.
  What it returns depends on the dtype of the column and on the casts of the polars
  version at hand, neither of which is in \<open>main.py\<close>; the model takes it as a
  parameter, a function from the column and the dictionary to the new cells or an error.
\<close>

type_synonym expr_replace = "string \<times> pyval list \<Rightarrow> column_codebook \<Rightarrow> error + pyval list"

text \<open>
  An expression reads one column of the frame and gives a named column. polars resolves
  the column names of all the expressions of \<open>with_columns\<close> against the frame before it
  evaluates any of them, and raises \<open>ColumnNotFoundError\<close> for a name that the frame does
  not have.
\<close>

fun root_column :: "expr \<Rightarrow> string" where
  "root_column (Col name) = name"
| "root_column (Replace e d) = root_column e"
| "root_column (Alias e name) = root_column e"

fun output_name :: "expr \<Rightarrow> string" where
  "output_name (Col name) = name"
| "output_name (Replace e d) = output_name e"
| "output_name (Alias e name) = name"

fun eval_expr :: "expr_replace \<Rightarrow> frame \<Rightarrow> expr \<Rightarrow> error + (string \<times> pyval list)" where
  "eval_expr replace df (Col name) =
     (case get_column df name of
        None \<Rightarrow> Inl (ColumnNotFoundError name)
      | Some cells \<Rightarrow> Inr (name, cells))"
| "eval_expr replace df (Replace e d) =
     (case eval_expr replace df e of
        Inl err \<Rightarrow> Inl err
      | Inr (name, cells) \<Rightarrow>
     (case replace (name, cells) d of
        Inl err \<Rightarrow> Inl err
      | Inr cells' \<Rightarrow> Inr (name, cells')))"
| "eval_expr replace df (Alias e name) =
     (case eval_expr replace df e of
        Inl err \<Rightarrow> Inl err
      | Inr (_, cells) \<Rightarrow> Inr (name, cells))"

fun eval_exprs ::
  "expr_replace \<Rightarrow> frame \<Rightarrow> expr list \<Rightarrow> error + (string \<times> pyval list) list" where
  "eval_exprs replace df [] = Inr []"
| "eval_exprs replace df (e # es) =
     (case eval_expr replace df e of
        Inl err \<Rightarrow> Inl err
      | Inr c \<Rightarrow>
     (case eval_exprs replace df es of
        Inl err \<Rightarrow> Inl err
      | Inr cs \<Rightarrow> Inr (c # cs)))"

fun first_duplicate :: "string list \<Rightarrow> string option" where
  "first_duplicate [] = None"
| "first_duplicate (x # xs) = (if x \<in> set xs then Some x else first_duplicate xs)"

text \<open>
  \<open>with_columns\<close> first resolves the expressions: every column that is read has to be in
  the frame, and two expressions must not have the same output name. Then it evaluates
  every expression on the frame it is called on. An output column replaces the column of
  the same name where it stands, and is appended when the frame has no such column.
\<close>

definition with_columns :: "expr_replace \<Rightarrow> frame \<Rightarrow> expr list \<Rightarrow> error + frame" where
  "with_columns replace df exprs =
     (case find (\<lambda>name. name \<notin> set (columns df)) (map root_column exprs) of
        Some name \<Rightarrow> Inl (ColumnNotFoundError name)
      | None \<Rightarrow>
     (case first_duplicate (map output_name exprs) of
        Some name \<Rightarrow> Inl (DuplicateError name)
      | None \<Rightarrow>
     (case eval_exprs replace df exprs of
        Inl err \<Rightarrow> Inl err
      | Inr cs \<Rightarrow> Inr (foldl (\<lambda>f (name, cells). dict_setitem f name cells) df cs))))"

text \<open>
  \<^verbatim>\<open>pl.col(col).replace(nested_dict_pl[col]).alias(col)\<close> for one key \<open>col\<close> of the
  dictionary. \<open>pl.col\<close> takes a column name, a string, and raises \<open>TypeError\<close> on an integer.
\<close>

fun recode_expr :: "codebook \<Rightarrow> pyval \<Rightarrow> error + expr" where
  "recode_expr nested_dict_pl (PStr col) =
     (case dict_get nested_dict_pl (PStr col) of
        None \<Rightarrow> Inl (KeyError col)
      | Some d \<Rightarrow> Inr (Alias (Replace (Col col) d) col))"
| "recode_expr nested_dict_pl (PInt i) = Inl TypeError"

text \<open>The list comprehension over \<open>list(nested_dict_pl)\<close>, the keys in dictionary order.\<close>

fun recode_exprs :: "codebook \<Rightarrow> pyval list \<Rightarrow> error + expr list" where
  "recode_exprs nested_dict_pl [] = Inr []"
| "recode_exprs nested_dict_pl (col # cols) =
     (case recode_expr nested_dict_pl col of
        Inl err \<Rightarrow> Inl err
      | Inr e \<Rightarrow>
     (case recode_exprs nested_dict_pl cols of
        Inl err \<Rightarrow> Inl err
      | Inr es \<Rightarrow> Inr (e # es)))"

definition recode_expr_list :: "codebook \<Rightarrow> error + expr list" where
  "recode_expr_list nested_dict_pl = recode_exprs nested_dict_pl (dict_keys nested_dict_pl)"

text \<open>
  \<^verbatim>\<open>data_pl.with_columns(recode_expr_list)\<close>. The other way of \<open>main.py\<close>, which passes
  the same expressions to \<open>with_columns\<close> as a generator, is the same computation.
\<close>

definition recode_pl :: "expr_replace \<Rightarrow> frame \<Rightarrow> codebook \<Rightarrow> error + frame" where
  "recode_pl replace data_pl nested_dict_pl =
     (case recode_expr_list nested_dict_pl of
        Inl err \<Rightarrow> Inl err
      | Inr exprs \<Rightarrow> with_columns replace data_pl exprs)"

subsection \<open>The inverse codebook\<close>



section \<open>Notions used to state the properties\<close>






text \<open>The position at which a value first appears in a column.\<close>

definition first_index :: "'a list \<Rightarrow> 'a \<Rightarrow> nat" where
  "first_index ks k = length (takeWhile (\<lambda>x. x \<noteq> k) ks)"

section \<open>Python dictionaries\<close>

lemma map_of_dict_setitem: "map_of (dict_setitem d k v) = (map_of d)(k \<mapsto> v)"
  by (induction d) (auto simp: fun_eq_iff)

lemma keys_dict_setitem:
  "map fst (dict_setitem d k v) = (if k \<in> fst ` set d then map fst d else map fst d @ [k])"
  by (induction d) force+

lemma dict_setitem_fresh: "k \<notin> fst ` set d \<Longrightarrow> dict_setitem d k v = d @ [(k, v)]"
  by (induction d) auto

lemma foldl_setitem_fresh:
  "distinct (map fst ps) \<Longrightarrow> fst ` set ps \<inter> fst ` set d = {} \<Longrightarrow>
   foldl (\<lambda>d (k, v). dict_setitem d k v) d ps = d @ ps"
proof (induction ps arbitrary: d)
  case Nil
  then show ?case by simp
next
  case (Cons p ps)
  obtain k v where p: "p = (k, v)" by (cases p)
  from Cons.prems have fresh: "k \<notin> fst ` set d" by (auto simp: p)
  have "foldl (\<lambda>d (k, v). dict_setitem d k v) (d @ [(k, v)]) ps = (d @ [(k, v)]) @ ps"
    using Cons.prems by (intro Cons.IH) (auto simp: p)
  then show ?case by (simp add: p dict_setitem_fresh [OF fresh])
qed

lemma map_of_foldl_setitem:
  "map_of (foldl (\<lambda>d (k, v). dict_setitem d k v) d ps) = map_of d ++ map_of (rev ps)"
  by (induction ps arbitrary: d) (auto simp: map_of_dict_setitem fun_eq_iff map_add_def split: option.splits)

lemma dict_get_dict_of: "dict_get (dict_of ps) k = map_of (rev ps) k"
  by (simp add: dict_get_def dict_of_def map_of_foldl_setitem)

lemma keys_dict_of: "set (dict_keys (dict_of ps)) = fst ` set ps"
proof -
  have "fst ` set (dict_of ps) = dom (map_of (dict_of ps))" by (simp add: dom_map_of_conv_image_fst)
  also have "\<dots> = dom (map_of (rev ps))" by (simp add: dict_of_def map_of_foldl_setitem)
  also have "\<dots> = fst ` set ps" by (simp add: dom_map_of_conv_image_fst)
  finally show ?thesis by (simp add: dict_keys_def)
qed

section \<open>Grouping and the compiled codebook\<close>

lemma set_group_keys: "set (group_keys ks) = set ks"
  by (induction ks) auto

lemma distinct_group_keys: "distinct (group_keys ks)"
  by (induction ks) auto

lemma first_seen_group_keys:
  "sorted_wrt (\<lambda>a b. first_index ks a < first_index ks b) (group_keys ks)"
proof (induction ks)
  case Nil
  then show ?case by simp
next
  case (Cons k ks)
  have "sorted_wrt (\<lambda>a b. first_index ks a < first_index ks b) (filter (\<lambda>x. x \<noteq> k) (group_keys ks))"
    using Cons.IH by (rule sorted_wrt_filter)
  then have "sorted_wrt (\<lambda>a b. first_index (k # ks) a < first_index (k # ks) b)
     (filter (\<lambda>x. x \<noteq> k) (group_keys ks))"
    by (rule sorted_wrt_mono_rel [rotated]) (auto simp: first_index_def)
  then show ?case by (auto simp: first_index_def)
qed

lemma get_column_sub_frame:
  "get_column (map (\<lambda>(name, vs). (name, f vs)) df) name = map_option f (get_column df name)"
  by (simp add: get_column_def map_of_map)

lemma create_dict_pd_loop_groups:
  assumes "get_column df old_val_col = Some os" "get_column df new_val_col = Some ns"
  shows "create_dict_pd_loop
           (map (\<lambda>k. (k, map (\<lambda>(name, vs). (name, take_group k ks vs)) df)) keys)
           old_val_col new_val_col nested =
         Inr (foldl (\<lambda>d k. dict_setitem d k (dict_of (zip (take_group k ks os) (take_group k ks ns))))
                nested keys)"
  using assms by (induction keys arbitrary: nested) (simp_all add: get_column_sub_frame)

lemma foldl_setitem_keys:
  "foldl (\<lambda>d k. dict_setitem d k (f k)) d keys
     = foldl (\<lambda>d (k, v). dict_setitem d k v) d (map (\<lambda>k. (k, f k)) keys)"
  by (induction keys arbitrary: d) simp_all

lemma nested_of_group_keys:
  "foldl (\<lambda>d k. dict_setitem d k (f k)) [] (group_keys ks) = map (\<lambda>k. (k, f k)) (group_keys ks)"
proof -
  have "distinct (map fst (map (\<lambda>k. (k, f k)) (group_keys ks)))"
    by (simp add: comp_def distinct_group_keys)
  then show ?thesis
    by (simp add: foldl_setitem_keys foldl_setitem_fresh)
qed

lemma create_dict_pd_compiled:
  assumes "get_column df col_name = Some ks"
    and "get_column df old_val_col = Some os" and "get_column df new_val_col = Some ns"
  shows "create_dict_pd df col_name old_val_col new_val_col =
         Inr (map (\<lambda>k. (k, dict_of (zip (take_group k ks os) (take_group k ks ns)))) (group_keys ks))"
  using assms
  by (simp add: create_dict_pd_def groupby_def create_dict_pd_loop_groups nested_of_group_keys)

lemma create_dict_pl_compiled:
  assumes "get_column df col_name = Some ks"
    and "get_column df old_val_col = Some os" and "get_column df new_val_col = Some ns"
    and "distinct [col_name, old_val_col, new_val_col]"
  shows "create_dict_pl df col_name old_val_col new_val_col =
         Inr (map (\<lambda>k. (k, dict_of (zip (take_group k ks os) (take_group k ks ns)))) (group_keys ks))"
proof -
  have "nested_of_rows (map (\<lambda>k. \<lparr>row_key = k, row_old = take_group k ks os,
                          row_new = take_group k ks ns\<rparr>) keys)
     = foldl (\<lambda>d k. dict_setitem d k (dict_of (zip (take_group k ks os) (take_group k ks ns)))) [] keys" for keys
    by (simp add: nested_of_rows_def foldl_map)
  then show ?thesis
    using assms by (auto simp: create_dict_pl_def group_by_agg_def nested_of_group_keys)
qed

lemma zip_take_group:
  "zip (take_group k ks os) (take_group k ks ns) = take_group k ks (zip os ns)"
proof (induction ks arbitrary: os ns)
  case Nil
  then show ?case by (simp add: take_group_def)
next
  case (Cons k' ks)
  show ?case
  proof (cases os)
    case Nil
    then show ?thesis by (simp add: take_group_def)
  next
    case os: (Cons x os')
    show ?thesis
    proof (cases ns)
      case Nil
      then show ?thesis by (simp add: take_group_def)
    next
      case ns: (Cons y ns')
      from Cons.IH [of os' ns'] show ?thesis
        by (simp add: os ns take_group_def)
    qed
  qed
qed

lemma set_take_group:
  "set (take_group k ks vs) = {v. (k, v) \<in> set (zip ks vs)}"
  by (force simp: take_group_def)

lemma map_of_rev_group:
  "map_of (rev (map snd (filter (\<lambda>(k', p). k' = k) ts))) a
     = map_of (rev (map (\<lambda>(k', old, new). ((k', old), new)) ts)) (k, a)"
  by (induction ts rule: rev_induct) auto

lemma map_of_rev_last:
  assumes "j < length ps" and "fst (ps ! j) = a"
    and "\<forall>j'. j < j' \<and> j' < length ps \<longrightarrow> fst (ps ! j') \<noteq> a"
  shows "map_of (rev ps) a = Some (snd (ps ! j))"
proof -
  have split: "ps = take j ps @ ps ! j # drop (Suc j) ps"
    using assms(1) by (rule id_take_nth_drop)
  have "a \<notin> fst ` set (drop (Suc j) ps)"
  proof
    assume "a \<in> fst ` set (drop (Suc j) ps)"
    then obtain i where "i < length (drop (Suc j) ps)" "fst (drop (Suc j) ps ! i) = a"
      by (auto simp: in_set_conv_nth)
    then have "Suc j + i < length ps" "fst (ps ! (Suc j + i)) = a" by auto
    with assms(3) show False by (metis less_add_Suc1 add_Suc)
  qed
  then have none: "map_of (rev (drop (Suc j) ps)) a = None"
    by (simp add: map_of_eq_None_iff)
  have "map_of (rev ps) a
      = map_of (rev (drop (Suc j) ps) @ ps ! j # rev (take j ps)) a"
    by (subst split) simp
  also have "\<dots> = Some (snd (ps ! j))"
    using none assms(2) by (cases "ps ! j") (simp add: map_add_def)
  finally show ?thesis .
qed

lemma group_lookup_last:
  assumes len: "length os = length ks" "length ns = length ks"
    and j: "j < length ks"
    and last: "\<forall>j'. j < j' \<and> j' < length ks \<longrightarrow> \<not> (ks ! j' = ks ! j \<and> os ! j' = os ! j)"
  shows "dict_get (dict_of (zip (take_group (ks ! j) ks os) (take_group (ks ! j) ks ns))) (os ! j)
         = Some (ns ! j)"
proof -
  let ?ps = "map (\<lambda>(k', old, new). ((k', old), new)) (zip ks (zip os ns))"
  have n: "length ?ps = length ks" using len by simp
  have nth: "?ps ! i = ((ks ! i, os ! i), ns ! i)" if "i < length ks" for i
    using that len by simp
  have "map_of (rev ?ps) (ks ! j, os ! j) = Some (snd (?ps ! j))"
  proof (rule map_of_rev_last)
    show "j < length ?ps" using j n by simp
    show "fst (?ps ! j) = (ks ! j, os ! j)" using nth [OF j] by simp
    show "\<forall>j'. j < j' \<and> j' < length ?ps \<longrightarrow> fst (?ps ! j') \<noteq> (ks ! j, os ! j)"
      using last nth n by auto
  qed
  moreover have "dict_get (dict_of (take_group (ks ! j) ks (zip os ns))) (os ! j)
      = map_of (rev ?ps) (ks ! j, os ! j)"
    unfolding dict_get_dict_of take_group_def by (rule map_of_rev_group)
  ultimately show ?thesis
    using nth [OF j] by (simp add: zip_take_group)
qed

lemma group_entry_is_row:
  assumes "dict_get (dict_of (zip (take_group k ks os) (take_group k ks ns))) old = Some new"
  shows "\<exists>i<length ks. ks ! i = k \<and> os ! i = old \<and> ns ! i = new"
proof -
  from assms have "(old, new) \<in> set (take_group k ks (zip os ns))"
    by (auto simp: dict_get_dict_of zip_take_group dest: map_of_SomeD)
  then have "(k, old, new) \<in> set (zip ks (zip os ns))"
    by (simp add: set_take_group)
  then obtain i where "i < length ks" "ks ! i = k" "zip os ns ! i = (old, new)" "i < length (zip os ns)"
    by (auto simp: in_set_zip)
  then show ?thesis by auto
qed

lemma group_row_is_key:
  assumes "length os = length ks" "length ns = length ks" "i < length ks"
  shows "os ! i \<in> set (dict_keys (dict_of (zip (take_group (ks ! i) ks os) (take_group (ks ! i) ks ns))))"
proof -
  have "(ks ! i, os ! i, ns ! i) \<in> set (zip ks (zip os ns))"
    using assms by (auto simp: in_set_zip intro!: exI [of _ i])
  then have "(os ! i, ns ! i) \<in> set (take_group (ks ! i) ks (zip os ns))"
    by (simp add: set_take_group)
  then show ?thesis
    by (force simp: keys_dict_of zip_take_group)
qed

lemma dict_get_keyed:
  "dict_get (map (\<lambda>k. (k, f k)) keys) k = (if k \<in> set keys then Some (f k) else None)"
  by (induction keys) (auto simp: dict_get_def)

lemma wf_frame_length:
  assumes "wf_frame df" "get_column df a = Some xs" "get_column df b = Some ys"
  shows "length xs = length ys"
proof -
  from assms(2,3) have "(a, xs) \<in> set df" "(b, ys) \<in> set df"
    by (auto simp: get_column_def dest: map_of_SomeD)
  with assms(1) show ?thesis by (fastforce simp: wf_frame_def)
qed

lemma get_column_iff: "name \<in> set (columns df) \<longleftrightarrow> (\<exists>cells. get_column df name = Some cells)"
  using map_of_eq_None_iff [of df name] by (auto simp: columns_def get_column_def)

lemma get_column_None: "name \<notin> set (columns df) \<longleftrightarrow> get_column df name = None"
  by (simp add: columns_def get_column_def map_of_eq_None_iff)


lemma group_keys_Nil: "group_keys ks = [] \<longleftrightarrow> ks = []"
  by (cases ks) simp_all

lemma create_dict_pl_Inl:
  assumes "distinct [col_name, old_val_col, new_val_col]"
    and "create_dict_pl df col_name old_val_col new_val_col = Inl e"
  shows "\<exists>f\<in>{col_name, old_val_col, new_val_col}. f \<notin> set (columns df) \<and> e = ColumnNotFoundError f"
  using assms
  by (auto simp: create_dict_pl_def group_by_agg_def get_column_None split: option.splits)

lemma create_dict_pl_fails_iff:
  assumes "distinct [col_name, old_val_col, new_val_col]"
  shows "(\<exists>e. create_dict_pl df col_name old_val_col new_val_col = Inl e)
     \<longleftrightarrow> \<not> {col_name, old_val_col, new_val_col} \<subseteq> set (columns df)"
  using assms
  by (auto simp: create_dict_pl_def group_by_agg_def get_column_None get_column_iff
      split: option.splits)

lemma create_dict_pd_loop_missing:
  assumes "get_column df old_val_col = None \<or> get_column df new_val_col = None"
  shows "create_dict_pd_loop
           (map (\<lambda>k. (k, map (\<lambda>(name, vs). (name, take_group k ks vs)) df)) (key # keys))
           old_val_col new_val_col nested =
         Inl (KeyError (if get_column df old_val_col = None then old_val_col else new_val_col))"
  using assms by (auto simp: get_column_sub_frame)

lemma create_dict_pd_cases:
  "create_dict_pd df col_name old_val_col new_val_col =
     (case get_column df col_name of
        None \<Rightarrow> Inl (KeyError col_name)
      | Some ks \<Rightarrow>
          if ks = [] then Inr []
          else if get_column df old_val_col = None then Inl (KeyError old_val_col)
          else if get_column df new_val_col = None then Inl (KeyError new_val_col)
          else Inr (map (\<lambda>k. (k, dict_of (zip (take_group k ks (the (get_column df old_val_col)))
                                       (take_group k ks (the (get_column df new_val_col))))))
                      (group_keys ks)))"
proof (cases "get_column df col_name")
  case None
  then show ?thesis by (simp add: create_dict_pd_def groupby_def)
next
  case (Some ks)
  show ?thesis
  proof (cases "ks = []")
    case True
    with Some show ?thesis by (simp add: create_dict_pd_def groupby_def)
  next
    case False
    then obtain key keys where gk: "group_keys ks = key # keys"
      by (cases "group_keys ks") (simp_all add: group_keys_Nil)
    show ?thesis
    proof (cases "get_column df old_val_col = None \<or> get_column df new_val_col = None")
      case True
      have "create_dict_pd df col_name old_val_col new_val_col
          = create_dict_pd_loop
              (map (\<lambda>k. (k, map (\<lambda>(name, vs). (name, take_group k ks vs)) df)) (key # keys))
              old_val_col new_val_col []"
        using Some gk by (simp only: create_dict_pd_def groupby_def option.case sum.case)
      also have "\<dots> = Inl (KeyError (if get_column df old_val_col = None
                                       then old_val_col else new_val_col))"
        using True by (rule create_dict_pd_loop_missing)
      finally show ?thesis using Some False True by auto
    next
      case both: False
      then obtain os ns where
        cols: "get_column df old_val_col = Some os" "get_column df new_val_col = Some ns"
        by auto
      from create_dict_pd_compiled [OF Some cols] Some cols False show ?thesis by simp
    qed
  qed
qed

section \<open>Properties of the codebook compiler\<close>

text \<open>
  C1. For a codebook table (a frame that has the three fields, under three different
  names), both compile functions return the same nested dictionary. Its outer keys are
  the distinct values of the column-name field: every key once, no key that is not in the
  field, in the order in which the values first appear. Every row contributes: its old
  value is a key of the inner dictionary of its group, and it is mapped to the row's new
  value unless a later row of the same group has the same old value. Every entry of an
  inner dictionary is the pair of a row of that group.
\<close>

theorem compile_groups_by_column_name:
  assumes "wf_frame df"
    and "get_column df col_name = Some ks"
    and "get_column df old_val_col = Some os"
    and "get_column df new_val_col = Some ns"
    and "distinct [col_name, old_val_col, new_val_col]"
  shows "\<exists>cb. create_dict_pl df col_name old_val_col new_val_col = Inr cb
           \<and> create_dict_pd df col_name old_val_col new_val_col = Inr cb
           \<and> distinct (dict_keys cb) \<and> set (dict_keys cb) = set ks
           \<and> sorted_wrt (\<lambda>a b. first_index ks a < first_index ks b) (dict_keys cb)
           \<and> (\<forall>i<length ks. \<exists>d. dict_get cb (ks ! i) = Some d
                  \<and> os ! i \<in> set (dict_keys d)
                  \<and> ((\<forall>j. i < j \<and> j < length ks \<longrightarrow> \<not> (ks ! j = ks ! i \<and> os ! j = os ! i))
                       \<longrightarrow> dict_get d (os ! i) = Some (ns ! i)))
           \<and> (\<forall>k d old new. dict_get cb k = Some d \<and> dict_get d old = Some new
                  \<longrightarrow> (\<exists>i<length ks. ks ! i = k \<and> os ! i = old \<and> ns ! i = new))"
proof -
  let ?f = "\<lambda>k. dict_of (zip (take_group k ks os) (take_group k ks ns))"
  let ?cb = "map (\<lambda>k. (k, ?f k)) (group_keys ks)"
  have len: "length os = length ks" "length ns = length ks"
    using assms(1-4) by (auto intro: wf_frame_length)
  have pl: "create_dict_pl df col_name old_val_col new_val_col = Inr ?cb"
    using assms(2-5) by (rule create_dict_pl_compiled)
  have pd: "create_dict_pd df col_name old_val_col new_val_col = Inr ?cb"
    using assms(2-4) by (rule create_dict_pd_compiled)
  have keys: "dict_keys ?cb = group_keys ks"
    by (simp add: dict_keys_def comp_def)
  have rows: "\<exists>d. dict_get ?cb (ks ! i) = Some d \<and> os ! i \<in> set (dict_keys d)
       \<and> ((\<forall>j. i < j \<and> j < length ks \<longrightarrow> \<not> (ks ! j = ks ! i \<and> os ! j = os ! i))
            \<longrightarrow> dict_get d (os ! i) = Some (ns ! i))" if "i < length ks" for i
  proof (intro exI conjI impI)
    show "dict_get ?cb (ks ! i) = Some (?f (ks ! i))"
      using that by (simp add: dict_get_keyed set_group_keys)
    show "os ! i \<in> set (dict_keys (?f (ks ! i)))"
      using len that by (rule group_row_is_key)
    show "dict_get (?f (ks ! i)) (os ! i) = Some (ns ! i)"
      if "\<forall>j. i < j \<and> j < length ks \<longrightarrow> \<not> (ks ! j = ks ! i \<and> os ! j = os ! i)"
      using len \<open>i < length ks\<close> that by (rule group_lookup_last)
  qed
  have entries: "\<exists>i<length ks. ks ! i = k \<and> os ! i = old \<and> ns ! i = new"
    if "dict_get ?cb k = Some d \<and> dict_get d old = Some new" for k d old new
  proof -
    from that have "d = ?f k" by (auto simp: dict_get_keyed split: if_splits)
    with that show ?thesis by (auto intro: group_entry_is_row)
  qed
  show ?thesis
  proof (intro exI [of _ ?cb] conjI allI impI)
    show "distinct (dict_keys ?cb)" by (simp only: keys distinct_group_keys)
    show "set (dict_keys ?cb) = set ks" by (simp only: keys set_group_keys)
    show "sorted_wrt (\<lambda>a b. first_index ks a < first_index ks b) (dict_keys ?cb)"
      by (simp only: keys first_seen_group_keys)
  qed (use pl pd rows entries in blast)+
qed

theorem compile_groups_by_column_name_witness:
  "wf_frame [(''column_name'', [PStr ''sex'', PStr ''grp'', PStr ''sex'']),
             (''old_values'', [PStr ''1'', PStr ''A'', PStr ''2'']),
             (''new_labels'', [PStr ''Male'', PStr ''X'', PStr ''Female''])]
   \<and> (\<exists>cb. create_dict_pl [(''column_name'', [PStr ''sex'', PStr ''grp'', PStr ''sex'']),
             (''old_values'', [PStr ''1'', PStr ''A'', PStr ''2'']),
             (''new_labels'', [PStr ''Male'', PStr ''X'', PStr ''Female''])]
             ''column_name'' ''old_values'' ''new_labels'' = Inr cb
         \<and> dict_keys cb = [PStr ''sex'', PStr ''grp''])"
proof -
  let ?df = "[(''column_name'', [PStr ''sex'', PStr ''grp'', PStr ''sex'']),
             (''old_values'', [PStr ''1'', PStr ''A'', PStr ''2'']),
             (''new_labels'', [PStr ''Male'', PStr ''X'', PStr ''Female''])]"
  have wf: "wf_frame ?df" by (simp add: wf_frame_def columns_def)
  have c: "get_column ?df ''column_name'' = Some [PStr ''sex'', PStr ''grp'', PStr ''sex'']"
    and o: "get_column ?df ''old_values'' = Some [PStr ''1'', PStr ''A'', PStr ''2'']"
    and n: "get_column ?df ''new_labels'' = Some [PStr ''Male'', PStr ''X'', PStr ''Female'']"
    by (simp_all add: get_column_def)
  have d: "distinct [''column_name'', ''old_values'', ''new_labels'']" by simp
  have pl: "create_dict_pl ?df ''column_name'' ''old_values'' ''new_labels''
      = Inr [(PStr ''sex'', [(PStr ''1'', PStr ''Male''), (PStr ''2'', PStr ''Female'')]),
             (PStr ''grp'', [(PStr ''A'', PStr ''X'')])]"
    by (simp add: create_dict_pl_def group_by_agg_def get_column_def nested_of_rows_def
        take_group_def dict_of_def)
  from compile_groups_by_column_name [OF wf c o n d] obtain cb where
    "create_dict_pl ?df ''column_name'' ''old_values'' ''new_labels'' = Inr cb" by blast
  with pl wf show ?thesis by (simp add: dict_keys_def)
qed

text \<open>
  C3. When an old value appears in several rows of one column-name group, row \<open>j\<close> being
  the last of them, the inner dictionary of the group maps the old value to the new value
  of row \<open>j\<close>. The witness is the table of the rows (grp, A, X), (grp, A, Y), whose
  dictionary for grp maps A to Y.
\<close>

theorem compile_last_write_wins:
  assumes "wf_frame df"
    and "get_column df col_name = Some ks"
    and "get_column df old_val_col = Some os"
    and "get_column df new_val_col = Some ns"
    and "distinct [col_name, old_val_col, new_val_col]"
    and "i < j" and "j < length ks"
    and "ks ! i = ks ! j" and "os ! i = os ! j"
    and "\<forall>j'. j < j' \<and> j' < length ks \<longrightarrow> \<not> (ks ! j' = ks ! j \<and> os ! j' = os ! j)"
  shows "\<exists>cb d. create_dict_pl df col_name old_val_col new_val_col = Inr cb
           \<and> create_dict_pd df col_name old_val_col new_val_col = Inr cb
           \<and> dict_get cb (ks ! i) = Some d \<and> dict_get d (os ! i) = Some (ns ! j)"
proof -
  let ?f = "\<lambda>k. dict_of (zip (take_group k ks os) (take_group k ks ns))"
  let ?cb = "map (\<lambda>k. (k, ?f k)) (group_keys ks)"
  have len: "length os = length ks" "length ns = length ks"
    using assms(1-4) by (auto intro: wf_frame_length)
  have "create_dict_pl df col_name old_val_col new_val_col = Inr ?cb"
    using assms(2-5) by (rule create_dict_pl_compiled)
  moreover have "create_dict_pd df col_name old_val_col new_val_col = Inr ?cb"
    using assms(2-4) by (rule create_dict_pd_compiled)
  moreover have "dict_get ?cb (ks ! j) = Some (?f (ks ! j))"
    using assms(7) by (simp add: dict_get_keyed set_group_keys)
  moreover have "dict_get (?f (ks ! j)) (os ! j) = Some (ns ! j)"
    using len assms(7,10) by (rule group_lookup_last)
  ultimately show ?thesis
    unfolding assms(8,9) by blast
qed

theorem compile_last_write_wins_witness:
  "wf_frame [(''column_name'', [PStr ''grp'', PStr ''grp'']),
             (''old_values'', [PStr ''A'', PStr ''A'']),
             (''new_labels'', [PStr ''X'', PStr ''Y''])]
   \<and> (\<exists>cb d. create_dict_pl [(''column_name'', [PStr ''grp'', PStr ''grp'']),
             (''old_values'', [PStr ''A'', PStr ''A'']),
             (''new_labels'', [PStr ''X'', PStr ''Y''])]
             ''column_name'' ''old_values'' ''new_labels'' = Inr cb
         \<and> create_dict_pd [(''column_name'', [PStr ''grp'', PStr ''grp'']),
             (''old_values'', [PStr ''A'', PStr ''A'']),
             (''new_labels'', [PStr ''X'', PStr ''Y''])]
             ''column_name'' ''old_values'' ''new_labels'' = Inr cb
         \<and> dict_get cb (PStr ''grp'') = Some d \<and> dict_get d (PStr ''A'') = Some (PStr ''Y''))"
proof -
  let ?ks = "[PStr ''grp'', PStr ''grp'']"
  let ?os = "[PStr ''A'', PStr ''A'']"
  let ?ns = "[PStr ''X'', PStr ''Y'']"
  let ?df = "[(''column_name'', ?ks), (''old_values'', ?os), (''new_labels'', ?ns)]"
  have wf: "wf_frame ?df" by (simp add: wf_frame_def columns_def)
  have c: "get_column ?df ''column_name'' = Some ?ks"
    and o: "get_column ?df ''old_values'' = Some ?os"
    and n: "get_column ?df ''new_labels'' = Some ?ns"
    by (simp_all add: get_column_def)
  have d: "distinct [''column_name'', ''old_values'', ''new_labels'']" by simp
  have ij: "(0::nat) < 1" "1 < length ?ks" "?ks ! 0 = ?ks ! 1" "?os ! 0 = ?os ! 1"
    by simp_all
  have last: "\<forall>j'. 1 < j' \<and> j' < length ?ks \<longrightarrow> \<not> (?ks ! j' = ?ks ! 1 \<and> ?os ! j' = ?os ! 1)"
    by simp
  from compile_last_write_wins [OF wf c o n d ij last] wf show ?thesis by simp
qed

text \<open>
  C10. On a frame that has the three fields, under three different names,
  \<open>create_dict_pd\<close> and \<open>create_dict_pl\<close> return the same nested dictionary: the same
  outer keys in the same order and the same inner dictionaries.
\<close>

theorem create_dict_pd_eq_create_dict_pl:
  assumes "col_name \<in> set (columns df)"
    and "old_val_col \<in> set (columns df)"
    and "new_val_col \<in> set (columns df)"
    and "distinct [col_name, old_val_col, new_val_col]"
  shows "\<exists>cb. create_dict_pd df col_name old_val_col new_val_col = Inr cb
           \<and> create_dict_pl df col_name old_val_col new_val_col = Inr cb"
proof -
  from assms(1-3) obtain ks os ns where cols: "get_column df col_name = Some ks"
    "get_column df old_val_col = Some os" "get_column df new_val_col = Some ns"
    by (auto simp: get_column_iff)
  show ?thesis
    using create_dict_pd_compiled [OF cols] create_dict_pl_compiled [OF cols assms(4)]
    by simp
qed

theorem create_dict_pd_eq_create_dict_pl_witness:
  "''column_name'' \<in> set (columns [(''column_name'', [PStr ''sex'', PStr ''grp'', PStr ''sex'']),
             (''old_values'', [PStr ''1'', PStr ''A'', PStr ''1'']),
             (''new_labels'', [PStr ''Male'', PStr ''X'', PStr ''M''])])
   \<and> create_dict_pd [(''column_name'', [PStr ''sex'', PStr ''grp'', PStr ''sex'']),
             (''old_values'', [PStr ''1'', PStr ''A'', PStr ''1'']),
             (''new_labels'', [PStr ''Male'', PStr ''X'', PStr ''M''])]
             ''column_name'' ''old_values'' ''new_labels''
     = create_dict_pl [(''column_name'', [PStr ''sex'', PStr ''grp'', PStr ''sex'']),
             (''old_values'', [PStr ''1'', PStr ''A'', PStr ''1'']),
             (''new_labels'', [PStr ''Male'', PStr ''X'', PStr ''M''])]
             ''column_name'' ''old_values'' ''new_labels''"
proof -
  let ?df = "[(''column_name'', [PStr ''sex'', PStr ''grp'', PStr ''sex'']),
             (''old_values'', [PStr ''1'', PStr ''A'', PStr ''1'']),
             (''new_labels'', [PStr ''Male'', PStr ''X'', PStr ''M''])]"
  have c: "''column_name'' \<in> set (columns ?df)" and o: "''old_values'' \<in> set (columns ?df)"
    and n: "''new_labels'' \<in> set (columns ?df)"
    by (simp_all add: columns_def)
  have d: "distinct [''column_name'', ''old_values'', ''new_labels'']" by simp
  from create_dict_pd_eq_create_dict_pl [OF c o n d] c show ?thesis by auto
qed

text \<open>
  C4, as the code has it. Neither function checks the schema; a missing field surfaces as
  the exception of the library, which carries the name of a field that is absent.
  \<open>create_dict_pl\<close> fails exactly when one of the three fields is absent, with
  \<open>ColumnNotFoundError\<close>. \<open>create_dict_pd\<close> fails, with \<open>KeyError\<close>, exactly when the
  column-name field is absent, or when the old-value or the new-value field is absent and
  the table has a row: it reads these two fields in the body of its loop over the groups,
  and a table without rows has no group.
\<close>

theorem compile_missing_field:
  assumes "distinct [col_name, old_val_col, new_val_col]"
  shows "((\<exists>e. create_dict_pl df col_name old_val_col new_val_col = Inl e)
            \<longleftrightarrow> \<not> {col_name, old_val_col, new_val_col} \<subseteq> set (columns df))
       \<and> (\<forall>e. create_dict_pl df col_name old_val_col new_val_col = Inl e \<longrightarrow>
            (\<exists>f\<in>{col_name, old_val_col, new_val_col}.
                f \<notin> set (columns df) \<and> e = ColumnNotFoundError f))
       \<and> ((\<exists>e. create_dict_pd df col_name old_val_col new_val_col = Inl e)
            \<longleftrightarrow> col_name \<notin> set (columns df)
                \<or> (get_column df col_name \<noteq> Some []
                    \<and> \<not> {old_val_col, new_val_col} \<subseteq> set (columns df)))
       \<and> (\<forall>e. create_dict_pd df col_name old_val_col new_val_col = Inl e \<longrightarrow>
            (\<exists>f\<in>{col_name, old_val_col, new_val_col}.
                f \<notin> set (columns df) \<and> e = KeyError f))"
proof (intro conjI allI impI)
  show "(\<exists>e. create_dict_pl df col_name old_val_col new_val_col = Inl e)
            \<longleftrightarrow> \<not> {col_name, old_val_col, new_val_col} \<subseteq> set (columns df)"
    using assms by (rule create_dict_pl_fails_iff)
  show "\<exists>f\<in>{col_name, old_val_col, new_val_col}.
                f \<notin> set (columns df) \<and> e = ColumnNotFoundError f"
    if "create_dict_pl df col_name old_val_col new_val_col = Inl e" for e
    using assms that by (rule create_dict_pl_Inl)
  show "(\<exists>e. create_dict_pd df col_name old_val_col new_val_col = Inl e)
            \<longleftrightarrow> col_name \<notin> set (columns df)
                \<or> (get_column df col_name \<noteq> Some []
                    \<and> \<not> {old_val_col, new_val_col} \<subseteq> set (columns df))"
    by (auto simp: create_dict_pd_cases get_column_None split: option.splits)
  show "\<exists>f\<in>{col_name, old_val_col, new_val_col}.
                f \<notin> set (columns df) \<and> e = KeyError f"
    if "create_dict_pd df col_name old_val_col new_val_col = Inl e" for e
    using that by (auto simp: create_dict_pd_cases get_column_None split: option.splits if_splits)
qed

theorem compile_missing_field_witness:
  "distinct [''column_name'', ''old_values'', ''new_labels'']
   \<and> create_dict_pl [(''column_name'', [PStr ''sex'']), (''old_values'', [PInt 1])]
        ''column_name'' ''old_values'' ''new_labels'' = Inl (ColumnNotFoundError ''new_labels'')
   \<and> create_dict_pd [(''column_name'', [PStr ''sex'']), (''old_values'', [PInt 1])]
        ''column_name'' ''old_values'' ''new_labels'' = Inl (KeyError ''new_labels'')"
proof -
  let ?df = "[(''column_name'', [PStr ''sex'']), (''old_values'', [PInt 1])]"
  have d: "distinct [''column_name'', ''old_values'', ''new_labels'']" by simp
  have absent: "\<not> {''column_name'', ''old_values'', ''new_labels''} \<subseteq> set (columns ?df)"
    "''column_name'' \<in> set (columns ?df)" "''old_values'' \<in> set (columns ?df)"
    "get_column ?df ''column_name'' \<noteq> Some []"
    by (simp_all add: columns_def get_column_def)
  from compile_missing_field [OF d, of ?df] absent d show ?thesis
    by auto
qed

text \<open>
  The table without rows that has only the column-name field: two fields are absent and
  \<open>create_dict_pd\<close> returns the empty dictionary.
\<close>

theorem compile_missing_field_counterexample:
  "\<not> {''column_name'', ''old_values'', ''new_labels''} \<subseteq> set (columns [(''column_name'', [])])
   \<and> create_dict_pd [(''column_name'', [])] ''column_name'' ''old_values'' ''new_labels'' = Inr []"
  by (simp add: columns_def create_dict_pd_def groupby_def get_column_def)



section \<open>The pandas recoder and the inverse codebook\<close>






section \<open>Properties of the recoder\<close>

text \<open>
  C2. A codebook for the column sex and a dataset that has only the column age. The
  pandas recoder returns the dataset, with the column age unchanged, as the property
  requires. The polars recoder, whatever \<open>Expr.replace\<close> does, returns no dataset: it
  raises \<open>ColumnNotFoundError\<close> for the key sex.
\<close>

theorem recode_pl_returns_no_dataset:
  "recode_pd [(''age'', [PInt 30, PInt 41])] [(PStr ''sex'', [(PInt 1, PStr ''Male'')])]
     = [(''age'', [PInt 30, PInt 41])]
   \<and> recode_pl replace [(''age'', [PInt 30, PInt 41])] [(PStr ''sex'', [(PInt 1, PStr ''Male'')])]
     = Inl (ColumnNotFoundError ''sex'')"
  by (simp add: recode_pd_def recode_pl_def recode_expr_list_def dict_keys_def dict_get_def
      with_columns_def columns_def)

text \<open>
  C5. A codebook whose only key is income, and a dataset without that column. The pandas
  recoder raises no error and returns the dataset unchanged: it ignores the key. The
  polars recoder, whatever \<open>Expr.replace\<close> does, raises \<open>ColumnNotFoundError\<close> for the
  key.
\<close>

theorem recode_absent_column:
  "PStr ''income'' \<in> set (dict_keys [(PStr ''income'', [(PInt 0, PStr ''none'')])])
   \<and> ''income'' \<notin> set (columns [(''sex'', [PInt 1, PInt 2])])
   \<and> recode_pd [(''sex'', [PInt 1, PInt 2])] [(PStr ''income'', [(PInt 0, PStr ''none'')])]
     = [(''sex'', [PInt 1, PInt 2])]
   \<and> recode_pl replace [(''sex'', [PInt 1, PInt 2])] [(PStr ''income'', [(PInt 0, PStr ''none'')])]
     = Inl (ColumnNotFoundError ''income'')"
  by (simp add: dict_keys_def columns_def recode_pd_def recode_pl_def recode_expr_list_def
      dict_get_def with_columns_def)

text \<open>
  C6. Recoding with the empty codebook returns the dataset unchanged, with pandas and
  with polars. The polars recoder builds no expression, so that \<open>Expr.replace\<close> is not
  called.
\<close>

theorem recode_empty_codebook:
  "recode_pd df [] = df \<and> recode_pl replace df [] = Inr df"
proof
  have "map (\<lambda>(name, cells). (name, cells)) df = df" by (induction df) auto
  then show "recode_pd df [] = df" by (simp add: recode_pd_def dict_get_def)
  show "recode_pl replace df [] = Inr df"
    by (simp add: recode_pl_def recode_expr_list_def dict_keys_def with_columns_def)
qed






end
